theory Spec2Isabelle
  imports Main "HOL-Library.Sublist" "HOL-Library.AList"
begin

section \<open>Website router: page discovery, generator routes, resolution and cache\<close>

text \<open>
  A shallow embedding of \<^verbatim>\<open>frappe/website/router.py\<close>. Python strings are
  \<^typ>\<open>string\<close> (ASCII text), a raised exception is the \<open>Inl\<close> of a sum, the cache
  store is an explicit state record that every function returns updated, and the
  collaborators the module calls (template loader, markdown renderer, application
  registry, database, record context builder) are fields of an environment record.
\<close>

subsection \<open>Python string and path primitives\<close>

datatype error =
  DoesNotExistError | ValueError | IndexError | IOError | TemplateNotFound | UnboundLocalError

text \<open>\<^verbatim>\<open>s.rsplit(".", 1)\<close>: split at the last dot; without a dot the list has one
  element and unpacking it into two names raises, which is \<open>None\<close> here.\<close>

definition rsplit_dot :: "string \<Rightarrow> (string \<times> string) option" where
  "rsplit_dot s =
     (if CHR ''.'' \<in> set s
      then Some (rev (tl (dropWhile (\<lambda>c. c \<noteq> CHR ''.'') (rev s))),
                 rev (takeWhile (\<lambda>c. c \<noteq> CHR ''.'') (rev s)))
      else None)"

text \<open>\<^verbatim>\<open>s.strip(chars)\<close>: drop the characters of \<open>chars\<close> from both ends.\<close>

definition strip :: "string \<Rightarrow> string \<Rightarrow> string" where
  "strip cs s = rev (dropWhile (\<lambda>c. c \<in> set cs) (rev (dropWhile (\<lambda>c. c \<in> set cs) s)))"

text \<open>\<^verbatim>\<open>s.strip()\<close> drops white space: space, tab, line feed, vertical tab, form feed,
  carriage return and the four separators 0x1C to 0x1F.\<close>

definition whitespace :: string where
  "whitespace = [CHR '' '', CHR 0x09, CHR 0x0A, CHR 0x0B, CHR 0x0C, CHR 0x0D,
                 CHR 0x1C, CHR 0x1D, CHR 0x1E, CHR 0x1F]"

definition replace_char :: "char \<Rightarrow> char \<Rightarrow> string \<Rightarrow> string" where
  "replace_char a b s = map (\<lambda>c. if c = a then b else c) s"

definition lowercase :: string where "lowercase = ''abcdefghijklmnopqrstuvwxyz''"
definition uppercase :: string where "uppercase = ''ABCDEFGHIJKLMNOPQRSTUVWXYZ''"

definition is_cased :: "char \<Rightarrow> bool" where
  "is_cased c = (c \<in> set lowercase \<or> c \<in> set uppercase)"

definition to_upper :: "char \<Rightarrow> char" where
  "to_upper c = (case map_of (zip lowercase uppercase) c of Some u \<Rightarrow> u | None \<Rightarrow> c)"

definition to_lower :: "char \<Rightarrow> char" where
  "to_lower c = (case map_of (zip uppercase lowercase) c of Some l \<Rightarrow> l | None \<Rightarrow> c)"

text \<open>\<^verbatim>\<open>s.title()\<close>: a character that follows a cased character is lowered, any other
  is raised; \<open>prev\<close> says whether the previous character was cased.\<close>

fun title_from :: "bool \<Rightarrow> string \<Rightarrow> string" where
  "title_from prev [] = []"
| "title_from prev (c # cs) = (if prev then to_lower c else to_upper c) # title_from (is_cased c) cs"

definition py_title :: "string \<Rightarrow> string" where
  "py_title s = title_from False s"

text \<open>\<^verbatim>\<open>os.path.join(a, b)\<close> and \<^verbatim>\<open>os.path.basename(p)\<close> of posixpath.\<close>

definition os_path_join :: "string \<Rightarrow> string \<Rightarrow> string" where
  "os_path_join a b =
     (if b \<noteq> [] \<and> hd b = CHR ''/'' then b
      else if a = [] \<or> last a = CHR ''/'' then a @ b
      else a @ ''/'' @ b)"

definition os_path_basename :: "string \<Rightarrow> string" where
  "os_path_basename p = rev (takeWhile (\<lambda>c. c \<noteq> CHR ''/'') (rev p))"

fun join_slash :: "string list \<Rightarrow> string" where
  "join_slash [] = []"
| "join_slash [x] = x"
| "join_slash (x # y # zs) = x @ ''/'' @ join_slash (y # zs)"

text \<open>\<^verbatim>\<open>os.path.relpath(basepath, path)\<close> for a directory \<open>basepath\<close> that os.walk
  reached from \<open>path\<close> through the directory names \<open>rel\<close>.\<close>

definition relpath :: "string list \<Rightarrow> string" where
  "relpath rel = (if rel = [] then ''.'' else join_slash rel)"

text \<open>\<^verbatim>\<open>re.findall('<!-- title:([^>]*) -->', s)[0]\<close>. After the marker the group takes
  characters other than \<open>>\<close> and must be followed by \<open> -->\<close>, so at one start position
  the only candidate is the run up to the next \<open>>\<close>, which has to end in \<open> --\<close>. The
  first match is the one at the leftmost start position that has one.\<close>

definition title_marker :: string where
  "title_marker = ''<!-- title:''"

definition match_title_at :: "string \<Rightarrow> string option" where
  "match_title_at rest =
     (let u = takeWhile (\<lambda>c. c \<noteq> CHR ''>'') rest
      in if length u < length rest \<and> suffix '' --'' u then Some (take (length u - 3) u) else None)"

fun first_title_match :: "string \<Rightarrow> string option" where
  "first_title_match [] = None"
| "first_title_match (c # cs) =
     (if prefix title_marker (c # cs)
      then (case match_title_at (drop (length title_marker) (c # cs)) of
              Some g \<Rightarrow> Some g
            | None \<Rightarrow> first_title_match cs)
      else first_title_match cs)"

subsection \<open>The file system under an application\<close>

text \<open>A directory lists its files (name and content) and its sub-directories, in the
  order \<^verbatim>\<open>os.walk\<close> reports them.\<close>

datatype dir = Dir (files: "(string \<times> string) list") (subdirs: "(string \<times> dir) list")

fun walk :: "string list \<Rightarrow> dir \<Rightarrow> (string list \<times> dir) list" where
  "walk rel (Dir fs ds) = (rel, Dir fs ds) # concat (map (\<lambda>(n, d). walk (rel @ [n]) d) ds)"

fun lookup_dir :: "dir \<Rightarrow> string list \<Rightarrow> dir option" where
  "lookup_dir d [] = Some d"
| "lookup_dir d (n # ns) =
     (case map_of (subdirs d) n of None \<Rightarrow> None | Some d' \<Rightarrow> lookup_dir d' ns)"

text \<open>\<^verbatim>\<open>os.path.exists(os.path.join(basepath, n))\<close> for a plain name \<open>n\<close>, and
  \<^verbatim>\<open>open(...).read()\<close>, which fails on a directory.\<close>

definition path_exists :: "dir \<Rightarrow> string \<Rightarrow> bool" where
  "path_exists d n = (n \<in> set (map fst (files d)) \<or> n \<in> set (map fst (subdirs d)))"

definition read_file :: "dir \<Rightarrow> string \<Rightarrow> error + string" where
  "read_file d n = (case map_of (files d) n of Some c \<Rightarrow> Inr c | None \<Rightarrow> Inl IOError)"

subsection \<open>Page descriptors, collaborators and the cache store\<close>

text \<open>A page descriptor or context is a \<^verbatim>\<open>frappe._dict\<close>: reading a key that was never
  set gives None, so the keys that may be missing are options and the flags, which
  are only ever set to 1, are booleans. Such a dict always carries its
  \<open>page_or_generator\<close> key, so \<^verbatim>\<open>if context:\<close> only tells a context from None.\<close>

record page_info =
  basename :: string
  page_or_generator :: string
  template :: string
  name :: string
  page_name :: string
  controller_path :: string
  source :: string
  only_content :: bool
  title :: "string option"
  no_breadcrumbs :: bool
  no_header :: bool
  no_cache :: bool
  controller :: string
  ref_doctype :: "string option"
  page_title :: "string option"
  doctype :: "string option"
  pathname :: "string option"

definition new_dict :: page_info where
  "new_dict = \<lparr>basename = [], page_or_generator = [], template = [], name = [],
     page_name = [], controller_path = [], source = [], only_content = False,
     title = None, no_breadcrumbs = False, no_header = False, no_cache = False,
     controller = [], ref_doctype = None, page_title = None, doctype = None,
     pathname = None\<rparr>"

text \<open>A database row of a generator record type: its id, its modification time, the two
  route columns (NULL is None) and its integer check columns by name.\<close>

record row =
  row_name :: string
  modified :: string
  row_page_name :: "string option"
  parent_website_route :: "string option"
  checks :: "string \<Rightarrow> int option"

record route =
  route_doctype :: string
  route_name :: string
  route_modified :: string

text \<open>What the module reads and never writes: the site configuration and the request
  (\<open>caching_enabled\<close>, \<open>lang\<close>, \<open>local_path\<close>), the application registry with each
  application's directory tree, the template loader, the markdown renderer, the
  registered generator types with their meta data, controller and table, and
  \<^verbatim>\<open>frappe.get_doc(doctype, name).get_route_context()\<close>.\<close>

record env =
  caching_enabled :: bool
  lang :: string
  local_path :: string
  installed_apps :: "string list"
  get_app_path :: "string \<Rightarrow> string"
  app_tree :: "string \<Rightarrow> dir"
  template_source :: "string \<Rightarrow> string option"
  markdown :: "string \<Rightarrow> string"
  website_generators :: "string \<Rightarrow> string list"
  has_parent_route_field :: "string \<Rightarrow> bool"
  condition_field :: "string \<Rightarrow> string option"
  table :: "string \<Rightarrow> row list"
  get_route_context :: "string \<Rightarrow> string \<Rightarrow> error + page_info"

text \<open>The cache store: the hash \<open>page_context\<close> (path, then language), the values
  \<open>_website_pages\<close> and \<open>website_generator_routes\<close>. The last field is a probe,
  not part of the store: it counts the calls of \<open>resolve_route\<close>.\<close>

record cache =
  page_context :: "string \<rightharpoonup> (string \<rightharpoonup> page_info)"
  website_pages :: "page_info list option"
  website_generator_routes :: "(string option \<times> route) list option"
  resolver_calls :: nat

text \<open>Modelled from the spec: \<^verbatim>\<open>can_cache\<close> of \<^verbatim>\<open>frappe.website.utils\<close> is not
  among the sources. Caching is enabled by an external policy decision and is refused
  for a context that declares itself non-cacheable.\<close>

definition can_cache :: "env \<Rightarrow> bool \<Rightarrow> bool" where
  "can_cache e no_cache_flag = (caching_enabled e \<and> \<not> no_cache_flag)"

subsection \<open>Building a page descriptor\<close>

definition shell_extends :: string where
  \<open>shell_extends = ''{% extends "templates/web.html" %}''\<close>

definition style_block :: "string \<Rightarrow> string" where
  "style_block css = ''\<newline>{% block style %}\<newline><style>\<newline>'' @ css @ ''\<newline></style>\<newline>{% endblock %}''"

definition page_content_block :: "string \<Rightarrow> string" where
  "page_content_block src = ''\<newline>{% block page_content %}\<newline>'' @ src @ ''\<newline>{% endblock %}''"

definition script_block :: "string \<Rightarrow> string" where
  "script_block js = ''\<newline>{% block script %}<script>'' @ js @ ''\<newline></script>\<newline>{% endblock %}''"

text \<open>\<open>get_source\<close> returns the descriptor (with \<open>only_content\<close> set where it applies)
  and the HTML. \<open>d\<close> is the directory \<open>basepath\<close>. Both sibling reads assign \<open>js\<close>;
  \<open>css\<close> keeps its initial empty value.\<close>

definition get_source :: "env \<Rightarrow> dir \<Rightarrow> page_info \<Rightarrow> error + (page_info \<times> string)" where
  "get_source e d pinfo =
     (case template_source e (template pinfo) of
        None \<Rightarrow> Inl TemplateNotFound
      | Some loaded \<Rightarrow>
          let src = (if suffix ''.md'' (template pinfo) then markdown e loaded else loaded) in
          if suffix ''.html'' (template pinfo) \<or> suffix ''.md'' (template pinfo) then
            if \<not> sublist ''</body>'' src \<and> \<not> sublist ''{% block'' src then
              (let pinfo = pinfo\<lparr>only_content := True\<rparr>;
                   js = [];
                   css = [];
                   js_path = basename pinfo @ ''.js'';
                   css_path = basename pinfo @ ''.css''
               in case (if path_exists d js_path then read_file d js_path else Inr js) of
                    Inl err \<Rightarrow> Inl err
                  | Inr js \<Rightarrow>
                      (case (if path_exists d css_path then read_file d css_path else Inr js) of
                         Inl err \<Rightarrow> Inl err
                       | Inr js \<Rightarrow>
                           Inr (pinfo,
                                shell_extends
                                @ (if css \<noteq> [] then style_block css else [])
                                @ page_content_block src
                                @ (if js \<noteq> [] then script_block js else []))))
            else Inr (pinfo, src)
          else Inr (pinfo, []))"

definition title_block :: "string \<Rightarrow> string" where
  "title_block t = ''\<newline>{% block title %}'' @ t @ ''{% endblock %}''"

definition header_block :: "string \<Rightarrow> string" where
  "header_block t = ''\<newline>{% block header %}<h1>'' @ t @ ''</h1>{% endblock %}''"

text \<open>\<open>load_properties\<close>, one function per statement group of the source: the title
  (\<^verbatim>\<open>findall(...)[0]\<close> raises on an empty list), the title block, then the flags with
  the header block.\<close>

definition load_title :: "page_info \<Rightarrow> error + string" where
  "load_title pinfo =
     (if sublist title_marker (source pinfo)
      then (case first_title_match (source pinfo) of
              None \<Rightarrow> Inl IndexError
            | Some g \<Rightarrow> Inr (strip whitespace g))
      else Inr (py_title (replace_char (CHR ''-'') (CHR '' '')
                  (replace_char (CHR ''_'') (CHR '' '') (os_path_basename (name pinfo))))))"

definition add_title_block :: "string \<Rightarrow> page_info \<Rightarrow> page_info" where
  "add_title_block t pinfo =
     (if \<not> sublist ''{% block title %}'' (source pinfo)
      then pinfo\<lparr>source := source pinfo @ title_block t\<rparr>
      else pinfo)"

definition load_flags :: "string \<Rightarrow> page_info \<Rightarrow> page_info" where
  "load_flags t pinfo =
     (let pinfo = (if sublist ''<!-- no-breadcrumbs -->'' (source pinfo)
                   then pinfo\<lparr>no_breadcrumbs := True\<rparr> else pinfo);
          pinfo = (if sublist ''<!-- no-header -->'' (source pinfo)
                   then pinfo\<lparr>no_header := True\<rparr>
                   else if \<not> sublist ''{% block header %}'' (source pinfo)
                           \<and> \<not> sublist ''<h1'' (source pinfo)
                        then pinfo\<lparr>source := source pinfo @ header_block t\<rparr>
                        else pinfo)
      in if sublist ''<!-- no-cache -->'' (source pinfo)
         then pinfo\<lparr>no_cache := True\<rparr> else pinfo)"

definition load_properties :: "page_info \<Rightarrow> error + page_info" where
  "load_properties pinfo =
     (case load_title pinfo of
        Inl err \<Rightarrow> Inl err
      | Inr t \<Rightarrow> Inr (load_flags t (add_title_block t (pinfo\<lparr>title := Some t\<rparr>))))"

text \<open>\<open>get_page_info\<close> for the file \<open>fname\<close> of the directory \<open>d\<close>. The scan root
  \<open>path\<close> is the application path joined with the names \<open>base\<close>, and \<open>basepath\<close> is
  \<open>path\<close> joined with the names \<open>rel\<close> that os.walk descended through, so that the
  path of a file relative to the application is \<open>base @ rel @ [fname]\<close>.\<close>

definition scan_root :: "env \<Rightarrow> string \<Rightarrow> string list \<Rightarrow> string" where
  "scan_root e app base = foldl os_path_join (get_app_path e app) base"

definition get_page_info ::
    "env \<Rightarrow> string \<Rightarrow> string list \<Rightarrow> string list \<Rightarrow> dir \<Rightarrow> string \<Rightarrow> error + page_info" where
  "get_page_info e app base rel d fname =
     (case rsplit_dot fname of
        None \<Rightarrow> Inl ValueError
      | Some (pname, extn) \<Rightarrow>
          let path = scan_root e app base;
              basepath = foldl os_path_join path rel;
              pinfo = new_dict\<lparr>basename := (if extn \<in> {''html'', ''md''} then pname else fname),
                                page_or_generator := ''Page'',
                                template := join_slash (base @ rel @ [fname])\<rparr>;
              pinfo = (if basename pinfo = ''index'' \<and> basepath \<noteq> path
                       then pinfo\<lparr>basename := []\<rparr> else pinfo);
              route_name = strip ''/'' (strip ''.'' (strip ''/''
                             (os_path_join (relpath rel) (basename pinfo))));
              py_file = replace_char (CHR ''-'') (CHR ''_'') pname @ ''.py'';
              pinfo = pinfo\<lparr>name := route_name, page_name := route_name,
                            controller_path := os_path_join basepath py_file\<rparr>
          in case get_source e d pinfo of
               Inl err \<Rightarrow> Inl err
             | Inr (pinfo, html) \<Rightarrow>
                 (case (if only_content (pinfo\<lparr>source := html\<rparr>)
                        then load_properties (pinfo\<lparr>source := html\<rparr>)
                        else Inr (pinfo\<lparr>source := html\<rparr>)) of
                    Inl err \<Rightarrow> Inl err
                  | Inr pinfo \<Rightarrow>
                      let rel_py = join_slash (base @ rel @ [py_file]);
                          dotted = replace_char (CHR ''/'') (CHR ''.'') rel_py
                      in Inr (pinfo\<lparr>controller :=
                                app @ ''.'' @ take (length dotted - 3) dotted\<rparr>)))"

subsection \<open>Scanning the page directories\<close>

text \<open>The inner loop of \<open>get_pages_from_path\<close> over the files of one directory, the
  outer loop over the directories of os.walk. The package marker that the walk
  creates in a directory has the extension \<open>py\<close>, which is no page and no sibling,
  and is left out.\<close>

fun scan_files ::
    "env \<Rightarrow> string \<Rightarrow> string list \<Rightarrow> string list \<Rightarrow> dir \<Rightarrow> string list \<Rightarrow> error + page_info list" where
  "scan_files e app base rel d [] = Inr []"
| "scan_files e app base rel d (fname # rest) =
     (case rsplit_dot fname of
        None \<Rightarrow> Inl ValueError
      | Some (pname, extn) \<Rightarrow>
          if extn \<in> {''js'', ''css''} \<and> path_exists d (fname @ ''.html'')
          then scan_files e app base rel d rest
          else if extn \<in> {''html'', ''xml'', ''js'', ''css'', ''md''}
          then (case get_page_info e app base rel d fname of
                  Inl err \<Rightarrow> Inl err
                | Inr pinfo \<Rightarrow>
                    (case scan_files e app base rel d rest of
                       Inl err \<Rightarrow> Inl err
                     | Inr pages \<Rightarrow> Inr (pinfo # pages)))
          else scan_files e app base rel d rest)"

fun scan_dirs ::
    "env \<Rightarrow> string \<Rightarrow> string list \<Rightarrow> (string list \<times> dir) list \<Rightarrow> error + page_info list" where
  "scan_dirs e app base [] = Inr []"
| "scan_dirs e app base ((rel, d) # rest) =
     (case scan_files e app base rel d (map fst (files d)) of
        Inl err \<Rightarrow> Inl err
      | Inr pages \<Rightarrow>
          (case scan_dirs e app base rest of
             Inl err \<Rightarrow> Inl err
           | Inr more_pages \<Rightarrow> Inr (pages @ more_pages)))"

definition get_pages_from_path :: "env \<Rightarrow> string \<Rightarrow> string list \<Rightarrow> error + page_info list" where
  "get_pages_from_path e app base =
     (case lookup_dir (app_tree e app) base of
        None \<Rightarrow> Inr []
      | Some root \<Rightarrow> scan_dirs e app base (walk [] root))"

text \<open>The loop of \<open>get_pages\<close> over the installed applications: the old directory
  \<open>templates/pages\<close>, then the new one \<open>www\<close>.\<close>

fun scan_apps :: "env \<Rightarrow> string list \<Rightarrow> error + page_info list" where
  "scan_apps e [] = Inr []"
| "scan_apps e (app # rest) =
     (case get_pages_from_path e app [''templates'', ''pages''] of
        Inl err \<Rightarrow> Inl err
      | Inr old_pages \<Rightarrow>
          (case get_pages_from_path e app [''www''] of
             Inl err \<Rightarrow> Inl err
           | Inr new_pages \<Rightarrow>
               (case scan_apps e rest of
                  Inl err \<Rightarrow> Inl err
                | Inr pages \<Rightarrow> Inr (old_pages @ new_pages @ pages))))"

definition get_pages :: "env \<Rightarrow> cache \<Rightarrow> (error + page_info list) \<times> cache" where
  "get_pages e st =
     (case (if can_cache e False then website_pages st else Some []) of
        Some (p # ps) \<Rightarrow> (Inr (p # ps), st)
      | _ \<Rightarrow>
          (case scan_apps e (installed_apps e) of
             Inl err \<Rightarrow> (Inl err, st)
           | Inr pages \<Rightarrow> (Inr pages, st\<lparr>website_pages := Some pages\<rparr>)))"

subsection \<open>The generator route index\<close>

text \<open>The route column of the query. With a parent route field it is
  \<^verbatim>\<open>concat(ifnull(parent_website_route, ""), if(ifnull(parent_website_route, "")="", "", "/"), page_name)\<close>,
  which is NULL when \<open>page_name\<close> is; without one it is \<open>page_name\<close>.\<close>

definition route_column :: "env \<Rightarrow> string \<Rightarrow> row \<Rightarrow> string option" where
  "route_column e dt r =
     (if has_parent_route_field e dt
      then (case row_page_name r of
              None \<Rightarrow> None
            | Some pn \<Rightarrow>
                let parent = (case parent_website_route r of None \<Rightarrow> [] | Some p \<Rightarrow> p)
                in Some (parent @ (if parent = [] then [] else ''/'') @ pn))
      else row_page_name r)"

text \<open>The condition of the query: none when the controller names no condition field,
  \<^verbatim>\<open>where field=1\<close> otherwise.\<close>

definition selected :: "env \<Rightarrow> string \<Rightarrow> row \<Rightarrow> bool" where
  "selected e dt r =
     (case condition_field e dt of
        None \<Rightarrow> True
      | Some f \<Rightarrow> if f = [] then True else checks r f = Some 1)"

definition select_routes :: "env \<Rightarrow> string \<Rightarrow> (string option \<times> route) list" where
  "select_routes e dt =
     map (\<lambda>r. (route_column e dt r,
               \<lparr>route_doctype = dt, route_name = row_name r, route_modified = modified r\<rparr>))
       (filter (selected e dt) (table e dt))"

text \<open>The three nested loops; \<^verbatim>\<open>routes[r.route] = ...\<close> replaces the entry of a key
  that is already there.\<close>

fun add_rows ::
    "(string option \<times> route) list \<Rightarrow> (string option \<times> route) list \<Rightarrow> (string option \<times> route) list" where
  "add_rows routes [] = routes"
| "add_rows routes ((k, v) # rest) = add_rows (AList.update k v routes) rest"

fun add_doctypes ::
    "env \<Rightarrow> (string option \<times> route) list \<Rightarrow> string list \<Rightarrow> (string option \<times> route) list" where
  "add_doctypes e routes [] = routes"
| "add_doctypes e routes (dt # rest) = add_doctypes e (add_rows routes (select_routes e dt)) rest"

fun add_apps ::
    "env \<Rightarrow> (string option \<times> route) list \<Rightarrow> string list \<Rightarrow> (string option \<times> route) list" where
  "add_apps e routes [] = routes"
| "add_apps e routes (app # rest) =
     add_apps e (add_doctypes e routes (website_generators e app)) rest"

definition get_page_context_from_doctypes ::
    "env \<Rightarrow> cache \<Rightarrow> (string option \<times> route) list \<times> cache" where
  "get_page_context_from_doctypes e st =
     (case website_generator_routes st of
        Some (r # rs) \<Rightarrow> (r # rs, st)
      | _ \<Rightarrow>
          let routes = add_apps e [] (installed_apps e)
          in (routes, st\<lparr>website_generator_routes := Some routes\<rparr>))"

subsection \<open>Resolution\<close>

definition get_page_context_from_template ::
    "env \<Rightarrow> cache \<Rightarrow> string \<Rightarrow> (error + page_info option) \<times> cache" where
  "get_page_context_from_template e st path =
     (case get_pages e st of
        (Inl err, st) \<Rightarrow> (Inl err, st)
      | (Inr pages, st) \<Rightarrow>
          (case filter (\<lambda>p. page_name p = path) pages of
             [] \<Rightarrow> (Inr None, st)
           | found # _ \<Rightarrow> (Inr (Some found), st)))"

definition get_page_context_from_doctype ::
    "env \<Rightarrow> cache \<Rightarrow> string \<Rightarrow> (error + page_info option) \<times> cache" where
  "get_page_context_from_doctype e st path =
     (case get_page_context_from_doctypes e st of
        (generator_routes, st) \<Rightarrow>
          (case map_of generator_routes (Some path) of
             None \<Rightarrow> (Inr None, st)
           | Some rt \<Rightarrow>
               (case get_route_context e (route_doctype rt) (route_name rt) of
                  Inl err \<Rightarrow> (Inl err, st)
                | Inr context \<Rightarrow> (Inr (Some context), st))))"

definition resolve_route :: "env \<Rightarrow> cache \<Rightarrow> string \<Rightarrow> (error + page_info option) \<times> cache" where
  "resolve_route e st0 path =
     (let st = st0\<lparr>resolver_calls := Suc (resolver_calls st0)\<rparr> in
      if path \<notin> {''about'', ''contact''} then
        (case get_page_context_from_template e st path of
           (Inl err, st) \<Rightarrow> (Inl err, st)
         | (Inr (Some context), st) \<Rightarrow> (Inr (Some context), st)
         | (Inr None, st) \<Rightarrow> get_page_context_from_doctype e st path)
      else
        (case get_page_context_from_doctype e st path of
           (Inl err, st) \<Rightarrow> (Inl err, st)
         | (Inr (Some context), st) \<Rightarrow> (Inr (Some context), st)
         | (Inr None, st) \<Rightarrow> get_page_context_from_template e st path))"

definition make_page_context :: "env \<Rightarrow> cache \<Rightarrow> string \<Rightarrow> (error + page_info) \<times> cache" where
  "make_page_context e st path =
     (case resolve_route e st path of
        (Inl err, st) \<Rightarrow> (Inl err, st)
      | (Inr None, st) \<Rightarrow> (Inl DoesNotExistError, st)
      | (Inr (Some context), st) \<Rightarrow>
          (Inr (context\<lparr>doctype := ref_doctype context, title := page_title context,
                        pathname := Some (local_path e)\<rparr>), st))"

subsection \<open>The page context cache\<close>

text \<open>\<open>hget\<close> is \<^verbatim>\<open>frappe.cache().hget("page_context", path) or {}\<close>. The local
  \<open>page_context_cache\<close> is bound only when the first \<open>can_cache()\<close> holds; assigning into
  it unbound raises.\<close>

definition hget :: "cache \<Rightarrow> string \<Rightarrow> (string \<rightharpoonup> page_info)" where
  "hget st path = (case page_context st path of None \<Rightarrow> Map.empty | Some m \<Rightarrow> m)"

definition hset :: "cache \<Rightarrow> string \<Rightarrow> (string \<rightharpoonup> page_info) \<Rightarrow> cache" where
  "hset st path m = st\<lparr>page_context := (page_context st)(path \<mapsto> m)\<rparr>"

definition get_page_context :: "env \<Rightarrow> cache \<Rightarrow> string \<Rightarrow> (error + page_info) \<times> cache" where
  "get_page_context e st path =
     (let page_context_cache = (if can_cache e False then Some (hget st path) else None);
          cached = (case page_context_cache of None \<Rightarrow> None | Some m \<Rightarrow> m (lang e))
      in case cached of
           Some context \<Rightarrow> (Inr context, st)
         | None \<Rightarrow>
             (case make_page_context e st path of
                (Inl err, st) \<Rightarrow> (Inl err, st)
              | (Inr context, st) \<Rightarrow>
                  if can_cache e (no_cache context)
                  then (case page_context_cache of
                          None \<Rightarrow> (Inl UnboundLocalError, st)
                        | Some m \<Rightarrow> (Inr context, hset st path (m(lang e \<mapsto> context))))
                  else (Inr context, st)))"

text \<open>The rows of all the queries, in the order of the loops over the applications and
  their generator types: what the index is built from.\<close>

definition all_rows :: "env \<Rightarrow> string list \<Rightarrow> (string option \<times> route) list" where
  "all_rows e apps = concat (map (select_routes e) (concat (map (website_generators e) apps)))"

section \<open>An example site\<close>

text \<open>One application whose \<open>www\<close> directory holds a page with both sibling assets,
  a home page, a blog directory with an index page and a markdown post, a hidden
  directory and an \<open>about\<close> page, and whose old directory \<open>templates/pages\<close> holds a
  second \<open>page\<close>. One generator type, Blog Post, with a parent route field and the
  condition field \<open>published\<close>.\<close>

definition site_blog :: dir where
  "site_blog =
     Dir [(''index.html'', ''<!-- title: My Blog --><p>posts</p>''),
          (''first_post-2015.md'', ''hello'')] []"

definition site_hidden :: dir where
  "site_hidden = Dir [(''index.html'', ''<p>keys</p>'')] []"

definition site_www :: dir where
  "site_www =
     Dir [(''page.html'', ''<p>new</p>''), (''page.js'', ''alert(1)''), (''page.css'', ''p {}''),
          (''index.html'', ''<p>home</p>''), (''about.html'', ''<p>we</p>'')]
         [(''blog'', site_blog), (''.well-known'', site_hidden)]"

definition site_tree :: dir where
  "site_tree =
     Dir [(''hooks.py'', [])]
         [(''templates'', Dir [] [(''pages'', Dir [(''page.html'', ''<p>old</p>'')] [])]),
          (''www'', site_www)]"

definition site_templates :: "(string \<times> string) list" where
  "site_templates =
     [(''templates/pages/page.html'', ''<p>old</p>''),
      (''www/page.html'', ''<p>new</p>''),
      (''www/page.js'', ''alert(1)''),
      (''www/page.css'', ''p {}''),
      (''www/index.html'', ''<p>home</p>''),
      (''www/about.html'', ''<p>we</p>''),
      (''www/blog/index.html'', ''<!-- title: My Blog --><p>posts</p>''),
      (''www/blog/first_post-2015.md'', ''hello''),
      (''www/.well-known/index.html'', ''<p>keys</p>'')]"

definition blog_rows :: "row list" where
  "blog_rows =
     [\<lparr>row_name = ''BP-1'', modified = ''2015-06-01'', row_page_name = Some ''hello-world'',
       parent_website_route = Some ''blog'', checks = (\<lambda>f. if f = ''published'' then Some 1 else None)\<rparr>,
      \<lparr>row_name = ''BP-2'', modified = ''2015-06-02'', row_page_name = Some ''draft'',
       parent_website_route = Some ''blog'', checks = (\<lambda>f. if f = ''published'' then Some 0 else None)\<rparr>,
      \<lparr>row_name = ''BP-3'', modified = ''2015-06-03'', row_page_name = Some ''about'',
       parent_website_route = None, checks = (\<lambda>f. if f = ''published'' then Some 1 else None)\<rparr>,
      \<lparr>row_name = ''BP-4'', modified = ''2015-06-04'', row_page_name = Some ''page'',
       parent_website_route = Some [], checks = (\<lambda>f. if f = ''published'' then Some 1 else None)\<rparr>]"

definition record_context :: "string \<Rightarrow> string \<Rightarrow> page_info" where
  "record_context dt n =
     new_dict\<lparr>page_or_generator := ''Generator'', name := n, ref_doctype := Some dt,
              page_title := Some n\<rparr>"

definition site :: env where
  "site =
     \<lparr>caching_enabled = True, lang = ''en'', local_path = ''blog'',
      installed_apps = [''app''],
      get_app_path = (\<lambda>app. ''/srv/'' @ app),
      app_tree = (\<lambda>app. site_tree),
      template_source = map_of site_templates,
      markdown = (\<lambda>s. ''<p>'' @ s @ ''</p>''),
      website_generators = (\<lambda>app. [''Blog Post'']),
      has_parent_route_field = (\<lambda>dt. True),
      condition_field = (\<lambda>dt. Some ''published''),
      table = (\<lambda>dt. blog_rows),
      get_route_context = (\<lambda>dt n. Inr (record_context dt n))\<rparr>"

definition empty_cache :: cache where
  "empty_cache =
     \<lparr>page_context = Map.empty, website_pages = None, website_generator_routes = None,
      resolver_calls = 0\<rparr>"

text \<open>A store that already holds a German context for \<open>blog\<close>, and one that holds an
  English one as well.\<close>

definition german_cache :: cache where
  "german_cache = hset empty_cache ''blog'' [''de'' \<mapsto> record_context ''Blog Post'' ''BP-9'']"

definition warm_cache :: cache where
  "warm_cache =
     hset empty_cache ''blog''
       [''de'' \<mapsto> record_context ''Blog Post'' ''BP-9'', ''en'' \<mapsto> record_context ''Blog Post'' ''BP-8'']"

text \<open>A second site: one page whose title comment holds a \<open>>\<close>.\<close>

definition broken_www :: dir where
  "broken_www = Dir [(''home.html'', ''<!-- title: A > B --><p>x</p>'')] []"

definition broken_site :: env where
  "broken_site =
     site\<lparr>app_tree := (\<lambda>app. Dir [] [(''www'', broken_www)]),
          template_source := map_of [(''www/home.html'', ''<!-- title: A > B --><p>x</p>'')]\<rparr>"

section \<open>Properties\<close>

subsection \<open>What each function writes\<close>

lemma get_pages_frame: "\<exists>wp. snd (get_pages e st) = st\<lparr>website_pages := wp\<rparr>"
proof (cases "fst (get_pages e st)")
  case (Inl err)
  then have "snd (get_pages e st) = st"
    by (auto simp: get_pages_def split: option.splits list.splits sum.splits if_splits)
  then have "snd (get_pages e st) = st\<lparr>website_pages := website_pages st\<rparr>" by simp
  then show ?thesis by blast
next
  case (Inr pages)
  then have "snd (get_pages e st) = st \<or> snd (get_pages e st) = st\<lparr>website_pages := Some pages\<rparr>"
    by (auto simp: get_pages_def split: option.splits list.splits sum.splits if_splits)
  moreover have "st = st\<lparr>website_pages := website_pages st\<rparr>" by simp
  ultimately show ?thesis by metis
qed

lemma doctypes_frame:
  "\<exists>r. snd (get_page_context_from_doctypes e st) = st\<lparr>website_generator_routes := r\<rparr>"
proof -
  have "snd (get_page_context_from_doctypes e st) = st
        \<or> snd (get_page_context_from_doctypes e st)
            = st\<lparr>website_generator_routes := Some (add_apps e [] (installed_apps e))\<rparr>"
    by (auto simp: get_page_context_from_doctypes_def Let_def split: option.splits list.splits)
  moreover have "st = st\<lparr>website_generator_routes := website_generator_routes st\<rparr>" by simp
  ultimately show ?thesis by metis
qed

lemma from_template_frame:
  "\<exists>wp. snd (get_page_context_from_template e st path) = st\<lparr>website_pages := wp\<rparr>"
proof -
  have "snd (get_page_context_from_template e st path) = snd (get_pages e st)"
    by (simp add: get_page_context_from_template_def split: prod.splits sum.splits list.splits)
  then show ?thesis using get_pages_frame by simp
qed

lemma from_doctype_frame:
  "\<exists>r. snd (get_page_context_from_doctype e st path) = st\<lparr>website_generator_routes := r\<rparr>"
proof -
  have "snd (get_page_context_from_doctype e st path) = snd (get_page_context_from_doctypes e st)"
    by (simp add: get_page_context_from_doctype_def split: prod.splits sum.splits option.splits)
  then show ?thesis using doctypes_frame by simp
qed

lemma from_template_fields:
  "page_context (snd (get_page_context_from_template e st path)) = page_context st
   \<and> resolver_calls (snd (get_page_context_from_template e st path)) = resolver_calls st"
proof -
  obtain wp where "snd (get_page_context_from_template e st path) = st\<lparr>website_pages := wp\<rparr>"
    using from_template_frame by blast
  then show ?thesis by simp
qed

lemma from_doctype_fields:
  "page_context (snd (get_page_context_from_doctype e st path)) = page_context st
   \<and> resolver_calls (snd (get_page_context_from_doctype e st path)) = resolver_calls st"
proof -
  obtain r where "snd (get_page_context_from_doctype e st path) = st\<lparr>website_generator_routes := r\<rparr>"
    using from_doctype_frame by blast
  then show ?thesis by simp
qed

lemma resolve_route_fields:
  "page_context (snd (resolve_route e st path)) = page_context st
   \<and> resolver_calls (snd (resolve_route e st path)) = Suc (resolver_calls st)"
proof -
  define st1 where "st1 = st\<lparr>resolver_calls := Suc (resolver_calls st)\<rparr>"
  define t1 where "t1 = snd (get_page_context_from_template e st1 path)"
  define d1 where "d1 = snd (get_page_context_from_doctype e st1 path)"
  define td where "td = snd (get_page_context_from_doctype e t1 path)"
  define dt where "dt = snd (get_page_context_from_template e d1 path)"
  have st1: "page_context st1 = page_context st \<and> resolver_calls st1 = Suc (resolver_calls st)"
    by (simp add: st1_def)
  have t1: "page_context t1 = page_context st \<and> resolver_calls t1 = Suc (resolver_calls st)"
    using from_template_fields [of e st1 path] st1 by (simp add: t1_def)
  have d1: "page_context d1 = page_context st \<and> resolver_calls d1 = Suc (resolver_calls st)"
    using from_doctype_fields [of e st1 path] st1 by (simp add: d1_def)
  have td: "page_context td = page_context st \<and> resolver_calls td = Suc (resolver_calls st)"
    using from_doctype_fields [of e t1 path] t1 by (simp add: td_def)
  have dt: "page_context dt = page_context st \<and> resolver_calls dt = Suc (resolver_calls st)"
    using from_template_fields [of e d1 path] d1 by (simp add: dt_def)
  have "snd (resolve_route e st path) = t1 \<or> snd (resolve_route e st path) = d1
        \<or> snd (resolve_route e st path) = td \<or> snd (resolve_route e st path) = dt"
    unfolding t1_def d1_def td_def dt_def st1_def resolve_route_def Let_def
    by (auto split: prod.splits sum.splits option.splits)
  then show ?thesis using t1 d1 td dt by (elim disjE) simp_all
qed

lemma make_page_context_state:
  "snd (make_page_context e st path) = snd (resolve_route e st path)"
  by (simp add: make_page_context_def split: prod.splits sum.splits option.splits)

lemma make_page_context_page_context:
  "page_context (snd (make_page_context e st path)) = page_context st"
  by (simp add: make_page_context_state resolve_route_fields)

lemma make_page_context_calls:
  "resolver_calls (snd (make_page_context e st path)) = Suc (resolver_calls st)"
  by (simp add: make_page_context_state resolve_route_fields)

lemma get_page_context_hit:
  assumes "caching_enabled e" and "hget st path (lang e) = Some c"
  shows "get_page_context e st path = (Inr c, st)"
  using assms by (simp add: get_page_context_def can_cache_def)

lemma get_page_context_miss:
  assumes "\<not> caching_enabled e \<or> hget st path (lang e) = None"
  shows "get_page_context e st path =
     (case make_page_context e st path of
        (Inl err, st1) \<Rightarrow> (Inl err, st1)
      | (Inr c, st1) \<Rightarrow>
          (Inr c, if caching_enabled e \<and> \<not> no_cache c
                  then hset st1 path ((hget st path)(lang e \<mapsto> c)) else st1))"
  using assms
  by (auto simp: get_page_context_def can_cache_def split: prod.splits sum.splits)

subsection \<open>The page context cache\<close>

text \<open>C3. With caching enabled and a context stored for the path under the active
  language, \<open>get_page_context\<close> returns that context and leaves the whole state as it
  was, the count of resolver calls included. Otherwise it calls the resolver once,
  passes an error on, and returns the resolved context; the context is written to the
  store, under the path and the active language, exactly when caching is enabled and
  the context does not set \<open>no_cache\<close>.\<close>

theorem get_page_context_cached_or_resolved:
  "(caching_enabled e \<and> hget st path (lang e) = Some c \<longrightarrow>
      get_page_context e st path = (Inr c, st))
   \<and> (\<not> caching_enabled e \<or> hget st path (lang e) = None \<longrightarrow>
      resolver_calls (snd (get_page_context e st path)) = Suc (resolver_calls st)
      \<and> (\<forall>err st1. make_page_context e st path = (Inl err, st1) \<longrightarrow>
            get_page_context e st path = (Inl err, st1))
      \<and> (\<forall>ctx st1. make_page_context e st path = (Inr ctx, st1) \<longrightarrow>
            get_page_context e st path =
              (Inr ctx, if caching_enabled e \<and> \<not> no_cache ctx
                        then hset st1 path ((hget st path)(lang e \<mapsto> ctx)) else st1)))"
proof (intro conjI impI allI)
  assume "caching_enabled e \<and> hget st path (lang e) = Some c"
  then show "get_page_context e st path = (Inr c, st)"
    using get_page_context_hit by blast
next
  assume miss: "\<not> caching_enabled e \<or> hget st path (lang e) = None"
  have "resolver_calls (snd (get_page_context e st path))
        = resolver_calls (snd (make_page_context e st path))"
    unfolding get_page_context_miss[OF miss]
    by (simp add: hset_def split: prod.splits sum.splits)
  then show "resolver_calls (snd (get_page_context e st path)) = Suc (resolver_calls st)"
    by (simp add: make_page_context_calls)
next
  fix err st1
  assume miss: "\<not> caching_enabled e \<or> hget st path (lang e) = None"
    and "make_page_context e st path = (Inl err, st1)"
  then show "get_page_context e st path = (Inl err, st1)"
    by (simp add: get_page_context_miss)
next
  fix ctx st1
  assume miss: "\<not> caching_enabled e \<or> hget st path (lang e) = None"
    and "make_page_context e st path = (Inr ctx, st1)"
  then show "get_page_context e st path =
      (Inr ctx, if caching_enabled e \<and> \<not> no_cache ctx
                then hset st1 path ((hget st path)(lang e \<mapsto> ctx)) else st1)"
    by (simp add: get_page_context_miss)
qed

theorem get_page_context_cached_or_resolved_witness:
  "caching_enabled site
   \<and> hget warm_cache ''blog'' (lang site) = Some (record_context ''Blog Post'' ''BP-8'')
   \<and> get_page_context site warm_cache ''blog''
       = (Inr (record_context ''Blog Post'' ''BP-8''), warm_cache)
   \<and> hget german_cache ''blog'' (lang site) = None
   \<and> resolver_calls (snd (get_page_context site german_cache ''blog''))
       = Suc (resolver_calls german_cache)"
proof -
  have on: "caching_enabled site" by (simp add: site_def)
  have hit: "hget warm_cache ''blog'' (lang site) = Some (record_context ''Blog Post'' ''BP-8'')"
    by (simp add: warm_cache_def hget_def hset_def site_def)
  have miss: "hget german_cache ''blog'' (lang site) = None"
    by (simp add: german_cache_def hget_def hset_def site_def)
  have a: "get_page_context site warm_cache ''blog''
             = (Inr (record_context ''Blog Post'' ''BP-8''), warm_cache)"
    by (rule get_page_context_cached_or_resolved
              [of site warm_cache "''blog''" "record_context ''Blog Post'' ''BP-8''",
               THEN conjunct1, THEN mp, OF conjI [OF on hit]])
  have b: "resolver_calls (snd (get_page_context site german_cache ''blog''))
             = Suc (resolver_calls german_cache)"
    by (rule get_page_context_cached_or_resolved
              [of site german_cache "''blog''", THEN conjunct2, THEN mp, OF disjI2 [OF miss],
               THEN conjunct1])
  show ?thesis by (intro conjI) (rule on hit a miss b)+
qed

text \<open>C10. A call of \<open>get_page_context\<close> leaves the entries of the path under every
  language other than the active one as they were. When it stores a resolved context,
  the entry of the path becomes the language map read at the start with the active
  language set to that context.\<close>

theorem get_page_context_other_languages:
  "(\<forall>l. l \<noteq> lang e \<longrightarrow> hget (snd (get_page_context e st path)) path l = hget st path l)
   \<and> (caching_enabled e \<and> hget st path (lang e) = None
        \<and> make_page_context e st path = (Inr ctx, st1) \<and> \<not> no_cache ctx \<longrightarrow>
      page_context (snd (get_page_context e st path)) path
        = Some ((hget st path)(lang e \<mapsto> ctx)))"
proof (intro conjI impI allI)
  fix l
  assume l: "l \<noteq> lang e"
  show "hget (snd (get_page_context e st path)) path l = hget st path l"
  proof (cases "caching_enabled e \<and> hget st path (lang e) \<noteq> None")
    case True
    then obtain c where "hget st path (lang e) = Some c" by blast
    with True show ?thesis by (simp add: get_page_context_hit)
  next
    case False
    then have miss: "\<not> caching_enabled e \<or> hget st path (lang e) = None" by blast
    have pc: "page_context (snd (make_page_context e st path)) = page_context st"
      by (rule make_page_context_page_context)
    show ?thesis
    proof (cases "make_page_context e st path")
      case (Pair res st2)
      with pc have "page_context st2 = page_context st" by simp
      then have h: "hget st2 path = hget st path" by (simp add: hget_def)
      show ?thesis
        using Pair l h
        by (cases res) (simp_all add: get_page_context_miss[OF miss] hget_def hset_def)
    qed
  qed
next
  assume a: "caching_enabled e \<and> hget st path (lang e) = None
        \<and> make_page_context e st path = (Inr ctx, st1) \<and> \<not> no_cache ctx"
  then have miss: "\<not> caching_enabled e \<or> hget st path (lang e) = None" by simp
  from a show "page_context (snd (get_page_context e st path)) path
        = Some ((hget st path)(lang e \<mapsto> ctx))"
    by (simp add: get_page_context_miss[OF miss] hset_def)
qed

theorem get_page_context_other_languages_witness:
  "''de'' \<noteq> lang site
   \<and> hget german_cache ''blog'' ''de'' = Some (record_context ''Blog Post'' ''BP-9'')
   \<and> hget (snd (get_page_context site german_cache ''blog'')) ''blog'' ''de''
       = Some (record_context ''Blog Post'' ''BP-9'')"
proof -
  have l: "''de'' \<noteq> lang site" by (simp add: site_def)
  have g: "hget german_cache ''blog'' ''de'' = Some (record_context ''Blog Post'' ''BP-9'')"
    by (simp add: german_cache_def hget_def hset_def)
  have "hget (snd (get_page_context site german_cache ''blog'')) ''blog'' ''de''
          = hget german_cache ''blog'' ''de''"
    by (rule get_page_context_other_languages
              [of site german_cache "''blog''", THEN conjunct1, THEN spec, THEN mp, OF l])
  then have k: "hget (snd (get_page_context site german_cache ''blog'')) ''blog'' ''de''
          = Some (record_context ''Blog Post'' ''BP-9'')"
    by (simp only: g)
  show ?thesis by (intro conjI) (rule l g k)+
qed

subsection \<open>What each lookup depends on\<close>

lemma get_pages_result:
  "website_pages st' = website_pages st \<Longrightarrow> fst (get_pages e st') = fst (get_pages e st)"
  by (simp add: get_pages_def split: option.splits list.splits sum.splits)

lemma doctypes_result:
  "website_generator_routes st' = website_generator_routes st \<Longrightarrow>
   fst (get_page_context_from_doctypes e st') = fst (get_page_context_from_doctypes e st)"
  by (simp add: get_page_context_from_doctypes_def Let_def split: option.splits list.splits)

lemma from_template_result:
  "fst (get_page_context_from_template e st path) =
     (case fst (get_pages e st) of
        Inl err \<Rightarrow> Inl err
      | Inr pages \<Rightarrow>
          (case filter (\<lambda>p. page_name p = path) pages of
             [] \<Rightarrow> Inr None
           | found # _ \<Rightarrow> Inr (Some found)))"
  by (simp add: get_page_context_from_template_def split: prod.splits sum.splits list.splits)

lemma from_doctype_result:
  "fst (get_page_context_from_doctype e st path) =
     (case map_of (fst (get_page_context_from_doctypes e st)) (Some path) of
        None \<Rightarrow> Inr None
      | Some rt \<Rightarrow>
          (case get_route_context e (route_doctype rt) (route_name rt) of
             Inl err \<Rightarrow> Inl err
           | Inr context \<Rightarrow> Inr (Some context)))"
  by (simp add: get_page_context_from_doctype_def split: prod.splits sum.splits option.splits)

lemma from_template_indep:
  "website_pages st' = website_pages st \<Longrightarrow>
   fst (get_page_context_from_template e st' path) = fst (get_page_context_from_template e st path)"
  using get_pages_result [of st' st e] by (simp add: from_template_result)

lemma from_doctype_indep:
  "website_generator_routes st' = website_generator_routes st \<Longrightarrow>
   fst (get_page_context_from_doctype e st' path) = fst (get_page_context_from_doctype e st path)"
  using doctypes_result [of st' st e] by (simp add: from_doctype_result)

lemma from_template_keeps_routes:
  "website_generator_routes (snd (get_page_context_from_template e st path))
     = website_generator_routes st"
proof -
  obtain wp where "snd (get_page_context_from_template e st path) = st\<lparr>website_pages := wp\<rparr>"
    using from_template_frame by blast
  then show ?thesis by simp
qed

lemma from_doctype_keeps_pages:
  "website_pages (snd (get_page_context_from_doctype e st path)) = website_pages st"
proof -
  obtain r where "snd (get_page_context_from_doctype e st path) = st\<lparr>website_generator_routes := r\<rparr>"
    using from_doctype_frame by blast
  then show ?thesis by simp
qed

lemma resolve_route_pages_first:
  assumes "path \<notin> {''about'', ''contact''}"
  shows "fst (resolve_route e st path) =
     (case fst (get_page_context_from_template e st path) of
        Inr None \<Rightarrow> fst (get_page_context_from_doctype e st path)
      | r \<Rightarrow> r)"
proof -
  define st1 where "st1 = st\<lparr>resolver_calls := Suc (resolver_calls st)\<rparr>"
  define t1 where "t1 = snd (get_page_context_from_template e st1 path)"
  have a: "fst (get_page_context_from_template e st1 path)
             = fst (get_page_context_from_template e st path)"
    by (rule from_template_indep) (simp add: st1_def)
  have "website_generator_routes t1 = website_generator_routes st"
    by (simp add: t1_def from_template_keeps_routes st1_def)
  then have b: "fst (get_page_context_from_doctype e t1 path)
             = fst (get_page_context_from_doctype e st path)"
    by (rule from_doctype_indep)
  have "fst (resolve_route e st path) =
     (case fst (get_page_context_from_template e st1 path) of
        Inr None \<Rightarrow> fst (get_page_context_from_doctype e t1 path)
      | r \<Rightarrow> r)"
    using assms unfolding resolve_route_def Let_def st1_def t1_def
    by (simp split: prod.splits sum.splits option.splits)
  then show ?thesis by (simp only: a b)
qed

lemma resolve_route_generators_first:
  assumes "path \<in> {''about'', ''contact''}"
  shows "fst (resolve_route e st path) =
     (case fst (get_page_context_from_doctype e st path) of
        Inr None \<Rightarrow> fst (get_page_context_from_template e st path)
      | r \<Rightarrow> r)"
proof -
  define st1 where "st1 = st\<lparr>resolver_calls := Suc (resolver_calls st)\<rparr>"
  define d1 where "d1 = snd (get_page_context_from_doctype e st1 path)"
  have a: "fst (get_page_context_from_doctype e st1 path)
             = fst (get_page_context_from_doctype e st path)"
    by (rule from_doctype_indep) (simp add: st1_def)
  have "website_pages d1 = website_pages st"
    by (simp add: d1_def from_doctype_keeps_pages st1_def)
  then have b: "fst (get_page_context_from_template e d1 path)
             = fst (get_page_context_from_template e st path)"
    by (rule from_template_indep)
  have "fst (resolve_route e st path) =
     (case fst (get_page_context_from_doctype e st1 path) of
        Inr None \<Rightarrow> fst (get_page_context_from_template e d1 path)
      | r \<Rightarrow> r)"
    using assms unfolding resolve_route_def Let_def st1_def d1_def
    by (simp split: prod.splits sum.splits option.splits)
  then show ?thesis by (simp only: a b)
qed

subsection \<open>Resolution order\<close>

text \<open>C1. For a path other than \<open>about\<close> and \<open>contact\<close>, \<open>resolve_route\<close> gives what the
  file pages give and turns to the generator routes only when no page has the route
  name; for \<open>about\<close> and \<open>contact\<close> it gives what the generator routes give and turns
  to the file pages only when the route map has no such key. So when the scan yields a
  page with the route name and the route map has the path with a record that builds a
  context, the result is the record's context for \<open>about\<close> and \<open>contact\<close> and the
  file page for any other path.\<close>

theorem resolve_route_precedence:
  "(path \<notin> {''about'', ''contact''} \<longrightarrow>
      fst (resolve_route e st path) =
        (case fst (get_page_context_from_template e st path) of
           Inr None \<Rightarrow> fst (get_page_context_from_doctype e st path)
         | r \<Rightarrow> r))
   \<and> (path \<in> {''about'', ''contact''} \<longrightarrow>
      fst (resolve_route e st path) =
        (case fst (get_page_context_from_doctype e st path) of
           Inr None \<Rightarrow> fst (get_page_context_from_template e st path)
         | r \<Rightarrow> r))
   \<and> (fst (get_pages e st) = Inr pages
        \<and> filter (\<lambda>p. page_name p = path) pages = file_page # others
        \<and> map_of (fst (get_page_context_from_doctypes e st)) (Some path) = Some rt
        \<and> get_route_context e (route_doctype rt) (route_name rt) = Inr generated \<longrightarrow>
      fst (resolve_route e st path) =
        Inr (Some (if path \<in> {''about'', ''contact''} then generated else file_page)))"
proof (intro conjI impI)
  assume "path \<notin> {''about'', ''contact''}"
  then show "fst (resolve_route e st path) =
        (case fst (get_page_context_from_template e st path) of
           Inr None \<Rightarrow> fst (get_page_context_from_doctype e st path)
         | r \<Rightarrow> r)"
    by (rule resolve_route_pages_first)
next
  assume "path \<in> {''about'', ''contact''}"
  then show "fst (resolve_route e st path) =
        (case fst (get_page_context_from_doctype e st path) of
           Inr None \<Rightarrow> fst (get_page_context_from_template e st path)
         | r \<Rightarrow> r)"
    by (rule resolve_route_generators_first)
next
  assume a: "fst (get_pages e st) = Inr pages
        \<and> filter (\<lambda>p. page_name p = path) pages = file_page # others
        \<and> map_of (fst (get_page_context_from_doctypes e st)) (Some path) = Some rt
        \<and> get_route_context e (route_doctype rt) (route_name rt) = Inr generated"
  then have t: "fst (get_page_context_from_template e st path) = Inr (Some file_page)"
    by (simp add: from_template_result)
  from a have d: "fst (get_page_context_from_doctype e st path) = Inr (Some generated)"
    by (simp add: from_doctype_result)
  show "fst (resolve_route e st path) =
        Inr (Some (if path \<in> {''about'', ''contact''} then generated else file_page))"
  proof (cases "path \<in> {''about'', ''contact''}")
    case True
    then show ?thesis
      using resolve_route_generators_first [OF True, of e st] d by simp
  next
    case False
    then show ?thesis
      using resolve_route_pages_first [OF False, of e st] t by simp
  qed
qed

theorem resolve_route_precedence_witness:
  "fst (get_pages site empty_cache) = Inr (projr (fst (get_pages site empty_cache)))
   \<and> map template (filter (\<lambda>p. page_name p = ''page'') (projr (fst (get_pages site empty_cache))))
       = [''templates/pages/page.html'', ''www/page.html'']
   \<and> map_of (fst (get_page_context_from_doctypes site empty_cache)) (Some ''page'')
       = Some \<lparr>route_doctype = ''Blog Post'', route_name = ''BP-4'', route_modified = ''2015-06-04''\<rparr>
   \<and> map_sum id (map_option template) (fst (resolve_route site empty_cache ''page''))
       = Inr (Some ''templates/pages/page.html'')
   \<and> map template (filter (\<lambda>p. page_name p = ''about'') (projr (fst (get_pages site empty_cache))))
       = [''www/about.html'']
   \<and> map_of (fst (get_page_context_from_doctypes site empty_cache)) (Some ''about'')
       = Some \<lparr>route_doctype = ''Blog Post'', route_name = ''BP-3'', route_modified = ''2015-06-03''\<rparr>
   \<and> fst (resolve_route site empty_cache ''about'') = Inr (Some (record_context ''Blog Post'' ''BP-3''))"
proof -
  define pages where "pages = projr (fst (get_pages site empty_cache))"
  define page_hits where "page_hits = filter (\<lambda>p. page_name p = ''page'') pages"
  define about_hits where "about_hits = filter (\<lambda>p. page_name p = ''about'') pages"
  have "\<not> isl (fst (get_pages site empty_cache))" by code_simp
  then have ok: "fst (get_pages site empty_cache) = Inr pages"
    by (simp add: pages_def)
  have pt: "map template page_hits = [''templates/pages/page.html'', ''www/page.html'']"
    unfolding page_hits_def pages_def by code_simp
  have at: "map template about_hits = [''www/about.html'']"
    unfolding about_hits_def pages_def by code_simp
  from pt have ph: "filter (\<lambda>p. page_name p = ''page'') pages = hd page_hits # tl page_hits"
    by (cases page_hits) (simp_all add: page_hits_def)
  from at have ah: "filter (\<lambda>p. page_name p = ''about'') pages = hd about_hits # tl about_hits"
    by (cases about_hits) (simp_all add: about_hits_def)
  from pt have pth: "template (hd page_hits) = ''templates/pages/page.html''"
    by (cases page_hits) simp_all
  have pr: "map_of (fst (get_page_context_from_doctypes site empty_cache)) (Some ''page'')
       = Some \<lparr>route_doctype = ''Blog Post'', route_name = ''BP-4'', route_modified = ''2015-06-04''\<rparr>"
    by code_simp
  have ar: "map_of (fst (get_page_context_from_doctypes site empty_cache)) (Some ''about'')
       = Some \<lparr>route_doctype = ''Blog Post'', route_name = ''BP-3'', route_modified = ''2015-06-03''\<rparr>"
    by code_simp
  have pg: "get_route_context site
      (route_doctype \<lparr>route_doctype = ''Blog Post'', route_name = ''BP-4'', route_modified = ''2015-06-04''\<rparr>)
      (route_name \<lparr>route_doctype = ''Blog Post'', route_name = ''BP-4'', route_modified = ''2015-06-04''\<rparr>)
        = Inr (record_context ''Blog Post'' ''BP-4'')"
    by (simp add: site_def)
  have ag: "get_route_context site
      (route_doctype \<lparr>route_doctype = ''Blog Post'', route_name = ''BP-3'', route_modified = ''2015-06-03''\<rparr>)
      (route_name \<lparr>route_doctype = ''Blog Post'', route_name = ''BP-3'', route_modified = ''2015-06-03''\<rparr>)
        = Inr (record_context ''Blog Post'' ''BP-3'')"
    by (simp add: site_def)
  have "fst (resolve_route site empty_cache ''page'') =
      Inr (Some (if ''page'' \<in> {''about'', ''contact''}
                 then record_context ''Blog Post'' ''BP-4'' else hd page_hits))"
    by (rule resolve_route_precedence
              [THEN conjunct2, THEN conjunct2, THEN mp, OF conjI [OF ok conjI [OF ph conjI [OF pr pg]]]])
  then have p: "map_sum id (map_option template) (fst (resolve_route site empty_cache ''page''))
       = Inr (Some ''templates/pages/page.html'')"
    by (simp add: pth)
  have "fst (resolve_route site empty_cache ''about'') =
      Inr (Some (if ''about'' \<in> {''about'', ''contact''}
                 then record_context ''Blog Post'' ''BP-3'' else hd about_hits))"
    by (rule resolve_route_precedence
              [THEN conjunct2, THEN conjunct2, THEN mp, OF conjI [OF ok conjI [OF ah conjI [OF ar ag]]]])
  then have a: "fst (resolve_route site empty_cache ''about'')
       = Inr (Some (record_context ''Blog Post'' ''BP-3''))"
    by simp
  show ?thesis
    using ok pt pr p at ar a unfolding page_hits_def about_hits_def pages_def
    by (intro conjI) assumption+
qed

text \<open>C2. When the scan yields pages none of which has the path as its route name,
  and the path is no key of the generator route map, \<open>make_page_context\<close> raises
  DoesNotExistError and returns no context.\<close>

theorem make_page_context_not_found:
  assumes "fst (get_pages e st) = Inr pages"
    and "\<forall>p \<in> set pages. page_name p \<noteq> path"
    and "Some path \<notin> fst ` set (fst (get_page_context_from_doctypes e st))"
  shows "fst (make_page_context e st path) = Inl DoesNotExistError"
proof -
  from assms(2) have "filter (\<lambda>p. page_name p = path) pages = []"
    by (simp add: filter_empty_conv)
  with assms(1) have t: "fst (get_page_context_from_template e st path) = Inr None"
    by (simp add: from_template_result)
  from assms(3) have "map_of (fst (get_page_context_from_doctypes e st)) (Some path) = None"
    by (simp add: map_of_eq_None_iff)
  then have d: "fst (get_page_context_from_doctype e st path) = Inr None"
    by (simp add: from_doctype_result)
  have "fst (resolve_route e st path) = Inr None"
  proof (cases "path \<in> {''about'', ''contact''}")
    case True
    then show ?thesis
      using resolve_route_generators_first [OF True, of e st] t d by simp
  next
    case False
    then show ?thesis
      using resolve_route_pages_first [OF False, of e st] t d by simp
  qed
  then obtain st1 where "resolve_route e st path = (Inr None, st1)"
    by (cases "resolve_route e st path") simp
  then show ?thesis
    by (simp add: make_page_context_def)
qed

theorem make_page_context_not_found_witness:
  "fst (get_pages site empty_cache) = Inr (projr (fst (get_pages site empty_cache)))
   \<and> ''nope'' \<notin> set (map page_name (projr (fst (get_pages site empty_cache))))
   \<and> Some ''nope'' \<notin> fst ` set (fst (get_page_context_from_doctypes site empty_cache))
   \<and> fst (make_page_context site empty_cache ''nope'') = Inl DoesNotExistError"
proof -
  have "\<not> isl (fst (get_pages site empty_cache))" by code_simp
  then have ok: "fst (get_pages site empty_cache) = Inr (projr (fst (get_pages site empty_cache)))"
    by simp
  have names: "''nope'' \<notin> set (map page_name (projr (fst (get_pages site empty_cache))))"
    by code_simp
  then have np: "\<forall>p \<in> set (projr (fst (get_pages site empty_cache))). page_name p \<noteq> ''nope''"
    by (auto simp: image_iff)
  have nr: "Some ''nope'' \<notin> fst ` set (fst (get_page_context_from_doctypes site empty_cache))"
    by code_simp
  have "fst (make_page_context site empty_cache ''nope'') = Inl DoesNotExistError"
    by (rule make_page_context_not_found [OF ok np nr])
  with ok names nr show ?thesis by (intro conjI)
qed

subsection \<open>Pages that share a route name\<close>

text \<open>C5, as the code has it. Of the pages of a scan that share a route name, the one
  discovered first is the one a lookup by that name returns: a page with no page of
  the same route name before it in scan order is the result of
  \<open>get_page_context_from_template\<close>, and of \<open>resolve_route\<close> for every path other than
  \<open>about\<close> and \<open>contact\<close>.\<close>

theorem first_discovered_page_wins:
  assumes "fst (get_pages e st) = Inr (earlier @ p # later)"
    and "page_name p = path"
    and "\<forall>q \<in> set earlier. page_name q \<noteq> path"
  shows "fst (get_page_context_from_template e st path) = Inr (Some p)
         \<and> (path \<notin> {''about'', ''contact''} \<longrightarrow> fst (resolve_route e st path) = Inr (Some p))"
proof -
  from assms(3) have "filter (\<lambda>q. page_name q = path) earlier = []"
    by (simp add: filter_empty_conv)
  with assms(2) have "filter (\<lambda>q. page_name q = path) (earlier @ p # later)
      = p # filter (\<lambda>q. page_name q = path) later"
    by simp
  with assms(1) have t: "fst (get_page_context_from_template e st path) = Inr (Some p)"
    by (simp add: from_template_result)
  have "path \<notin> {''about'', ''contact''} \<Longrightarrow> fst (resolve_route e st path) = Inr (Some p)"
    using resolve_route_pages_first [of path e st] t by simp
  with t show ?thesis by blast
qed

theorem first_discovered_page_wins_witness:
  "map page_name (projr (fst (get_pages site empty_cache)))
     = [''page'', ''page'', ''page.js'', ''page.css'', ''index'', ''about'', ''blog'',
        ''blog/first_post-2015'', ''well-known'']
   \<and> fst (get_page_context_from_template site empty_cache ''page'')
       = Inr (Some (hd (projr (fst (get_pages site empty_cache)))))
   \<and> fst (resolve_route site empty_cache ''page'')
       = Inr (Some (hd (projr (fst (get_pages site empty_cache)))))"
proof -
  define pages where "pages = projr (fst (get_pages site empty_cache))"
  have "\<not> isl (fst (get_pages site empty_cache))" by code_simp
  then have ok: "fst (get_pages site empty_cache) = Inr pages"
    by (simp add: pages_def)
  have names: "map page_name pages
     = [''page'', ''page'', ''page.js'', ''page.css'', ''index'', ''about'', ''blog'',
        ''blog/first_post-2015'', ''well-known'']"
    unfolding pages_def by code_simp
  then have split: "pages = [] @ hd pages # tl pages" and first: "page_name (hd pages) = ''page''"
    by (cases pages; simp)+
  from ok split have ok': "fst (get_pages site empty_cache) = Inr ([] @ hd pages # tl pages)"
    by simp
  have none: "\<forall>q \<in> set []. page_name q \<noteq> ''page''" by simp
  have not_special: "''page'' \<notin> {''about'', ''contact''}" by simp
  note w = first_discovered_page_wins [OF ok' first none]
  from w have a: "fst (get_page_context_from_template site empty_cache ''page'') = Inr (Some (hd pages))"
    by (rule conjunct1)
  from w not_special have b: "fst (resolve_route site empty_cache ''page'') = Inr (Some (hd pages))"
    by blast
  show ?thesis
    using names a b unfolding pages_def by (intro conjI)
qed

text \<open>On the example site the route name \<open>page\<close> is discovered twice, first under
  \<open>templates/pages\<close> and last under \<open>www\<close>; resolving it gives the first, not the last.\<close>

theorem last_discovered_page_wins_counterexample:
  "map_sum id (map template) (fst (get_pages site empty_cache))
     = Inr [''templates/pages/page.html'', ''www/page.html'', ''www/page.js'', ''www/page.css'',
            ''www/index.html'', ''www/about.html'', ''www/blog/index.html'',
            ''www/blog/first_post-2015.md'', ''www/.well-known/index.html'']
   \<and> map_sum id (map page_name) (fst (get_pages site empty_cache))
     = Inr [''page'', ''page'', ''page.js'', ''page.css'', ''index'', ''about'', ''blog'',
            ''blog/first_post-2015'', ''well-known'']
   \<and> map_sum id (map_option template) (fst (resolve_route site empty_cache ''page''))
     = Inr (Some ''templates/pages/page.html'')
   \<and> map_sum id (map_option template) (fst (resolve_route site empty_cache ''page''))
     \<noteq> Inr (Some ''www/page.html'')"
  by code_simp

subsection \<open>The generator route index\<close>

lemma add_rows_append: "add_rows routes (xs @ ys) = add_rows (add_rows routes xs) ys"
  by (induction xs arbitrary: routes) auto

lemma add_rows_map_of: "map_of (add_rows routes kvs) = map_of routes ++ map_of (rev kvs)"
proof (induction kvs arbitrary: routes)
  case Nil
  then show ?case by simp
next
  case (Cons kv kvs)
  obtain k v where kv: "kv = (k, v)" by (cases kv)
  have "map_of (add_rows routes (kv # kvs)) = map_of (AList.update k v routes) ++ map_of (rev kvs)"
    using Cons.IH [of "AList.update k v routes"] by (simp add: kv)
  also have "\<dots> = (map_of routes)(k \<mapsto> v) ++ map_of (rev kvs)"
    by (simp add: update_conv')
  also have "\<dots> = map_of routes ++ ([k \<mapsto> v] ++ map_of (rev kvs))"
    by (simp add: map_add_upd_left fun_eq_iff map_add_def split: option.splits)
  also have "\<dots> = map_of routes ++ map_of (rev (kv # kvs))"
    by (simp add: kv)
  finally show ?case .
qed

lemma add_doctypes_flat:
  "add_doctypes e routes dts = add_rows routes (concat (map (select_routes e) dts))"
  by (induction dts arbitrary: routes) (auto simp: add_rows_append)

lemma add_apps_flat: "add_apps e routes apps = add_rows routes (all_rows e apps)"
  by (induction apps arbitrary: routes) (auto simp: all_rows_def add_doctypes_flat add_rows_append)

lemma all_rows_mem:
  "(k, rt) \<in> set (all_rows e apps) \<longleftrightarrow>
     (\<exists>app \<in> set apps. \<exists>dt \<in> set (website_generators e app). \<exists>r \<in> set (table e dt).
        selected e dt r \<and> route_column e dt r = k
        \<and> rt = \<lparr>route_doctype = dt, route_name = row_name r, route_modified = modified r\<rparr>)"
  by (auto simp: all_rows_def select_routes_def)

lemma index_entry:
  assumes "map_of (add_apps e [] apps) k = Some rt"
  shows "(k, rt) \<in> set (all_rows e apps)"
proof -
  from assms have "map_of (rev (all_rows e apps)) k = Some rt"
    by (simp add: add_apps_flat add_rows_map_of)
  then have "(k, rt) \<in> set (rev (all_rows e apps))" by (rule map_of_SomeD)
  then show ?thesis by simp
qed

lemma index_keys: "fst ` set (add_apps e [] apps) = fst ` set (all_rows e apps)"
proof -
  have "dom (map_of (add_apps e [] apps)) = dom (map_of (rev (all_rows e apps)))"
    by (simp add: add_apps_flat add_rows_map_of)
  then show ?thesis by (simp add: dom_map_of_conv_image_fst)
qed

text \<open>C8. The index that \<open>get_page_context_from_doctypes\<close> builds when the cache holds
  none has an entry only for a row that the query of its type selects, under the
  row's route and with the row's type, id and modification time, and it has the route
  of every selected row as a key. With a parent route field the route of a row is the
  parent route, a slash and the page name, and the page name alone when the parent is
  NULL or empty; without that field it is the page name. With a condition field the
  query selects the rows whose field equals 1, so a row with 0 there is not selected.\<close>

theorem generator_route_index:
  "(website_generator_routes st = None \<longrightarrow>
      fst (get_page_context_from_doctypes e st) = add_apps e [] (installed_apps e))
   \<and> (map_of (add_apps e [] (installed_apps e)) k = Some rt \<longrightarrow>
        (\<exists>app \<in> set (installed_apps e). \<exists>dt \<in> set (website_generators e app).
           \<exists>r \<in> set (table e dt).
             selected e dt r \<and> route_column e dt r = k
             \<and> rt = \<lparr>route_doctype = dt, route_name = row_name r, route_modified = modified r\<rparr>))
   \<and> (app \<in> set (installed_apps e) \<and> dt \<in> set (website_generators e app)
        \<and> r \<in> set (table e dt) \<and> selected e dt r \<longrightarrow>
        route_column e dt r \<in> fst ` set (add_apps e [] (installed_apps e)))
   \<and> (has_parent_route_field e dt \<and> row_page_name r = Some pn \<longrightarrow>
        route_column e dt r =
          Some (case parent_website_route r of
                  None \<Rightarrow> pn
                | Some parent \<Rightarrow> if parent = [] then pn else parent @ ''/'' @ pn))
   \<and> (\<not> has_parent_route_field e dt \<longrightarrow> route_column e dt r = row_page_name r)
   \<and> (condition_field e dt = Some f \<and> f \<noteq> [] \<longrightarrow>
        selected e dt r = (checks r f = Some 1))
   \<and> (condition_field e dt = Some f \<and> f \<noteq> [] \<and> checks r f = Some 0 \<longrightarrow>
        \<not> selected e dt r)"
proof (intro conjI impI)
  assume "website_generator_routes st = None"
  then show "fst (get_page_context_from_doctypes e st) = add_apps e [] (installed_apps e)"
    by (simp add: get_page_context_from_doctypes_def Let_def)
next
  assume "map_of (add_apps e [] (installed_apps e)) k = Some rt"
  then have "(k, rt) \<in> set (all_rows e (installed_apps e))" by (rule index_entry)
  then show "\<exists>app \<in> set (installed_apps e). \<exists>dt \<in> set (website_generators e app).
           \<exists>r \<in> set (table e dt).
             selected e dt r \<and> route_column e dt r = k
             \<and> rt = \<lparr>route_doctype = dt, route_name = row_name r, route_modified = modified r\<rparr>"
    by (simp only: all_rows_mem)
next
  assume a: "app \<in> set (installed_apps e) \<and> dt \<in> set (website_generators e app)
        \<and> r \<in> set (table e dt) \<and> selected e dt r"
  then have "(route_column e dt r,
              \<lparr>route_doctype = dt, route_name = row_name r, route_modified = modified r\<rparr>)
             \<in> set (all_rows e (installed_apps e))"
    unfolding all_rows_mem by blast
  then have "route_column e dt r \<in> fst ` set (all_rows e (installed_apps e))"
    by force
  then show "route_column e dt r \<in> fst ` set (add_apps e [] (installed_apps e))"
    by (simp only: index_keys)
next
  assume "has_parent_route_field e dt \<and> row_page_name r = Some pn"
  then show "route_column e dt r =
          Some (case parent_website_route r of
                  None \<Rightarrow> pn
                | Some parent \<Rightarrow> if parent = [] then pn else parent @ ''/'' @ pn)"
    by (simp add: route_column_def Let_def split: option.splits)
next
  assume "\<not> has_parent_route_field e dt"
  then show "route_column e dt r = row_page_name r"
    by (simp add: route_column_def)
next
  assume "condition_field e dt = Some f \<and> f \<noteq> []"
  then show "selected e dt r = (checks r f = Some 1)"
    by (simp add: selected_def)
next
  assume "condition_field e dt = Some f \<and> f \<noteq> [] \<and> checks r f = Some 0"
  then show "\<not> selected e dt r"
    by (simp add: selected_def)
qed

theorem generator_route_index_witness:
  "website_generator_routes empty_cache = None
   \<and> fst (get_page_context_from_doctypes site empty_cache) = add_apps site [] (installed_apps site)
   \<and> ''app'' \<in> set (installed_apps site) \<and> ''Blog Post'' \<in> set (website_generators site ''app'')
   \<and> blog_rows ! 0 \<in> set (table site ''Blog Post'') \<and> selected site ''Blog Post'' (blog_rows ! 0)
   \<and> has_parent_route_field site ''Blog Post''
   \<and> row_page_name (blog_rows ! 0) = Some ''hello-world''
   \<and> route_column site ''Blog Post'' (blog_rows ! 0) = Some ''blog/hello-world''
   \<and> Some ''blog/hello-world'' \<in> fst ` set (add_apps site [] (installed_apps site))
   \<and> condition_field site ''Blog Post'' = Some ''published''
   \<and> checks (blog_rows ! 1) ''published'' = Some 0
   \<and> \<not> selected site ''Blog Post'' (blog_rows ! 1)"
proof -
  note t = generator_route_index
    [of empty_cache site "Some ''blog/hello-world''" _ "''app''" "''Blog Post''" "blog_rows ! 0"
        "''hello-world''" "''published''"]
  note u = generator_route_index
    [of empty_cache site _ _ "''app''" "''Blog Post''" "blog_rows ! 1" _ "''published''"]
  have c: "website_generator_routes empty_cache = None" by (simp add: empty_cache_def)
  have i: "''app'' \<in> set (installed_apps site)" by (simp add: site_def)
  have g: "''Blog Post'' \<in> set (website_generators site ''app'')" by (simp add: site_def)
  have r: "blog_rows ! 0 \<in> set (table site ''Blog Post'')" by (simp add: site_def blog_rows_def)
  have f: "condition_field site ''Blog Post'' = Some ''published''" by (simp add: site_def)
  have ne: "''published'' \<noteq> []" by simp
  have h: "has_parent_route_field site ''Blog Post''" by (simp add: site_def)
  have pn: "row_page_name (blog_rows ! 0) = Some ''hello-world''" by (simp add: blog_rows_def)
  have par: "parent_website_route (blog_rows ! 0) = Some ''blog''" by (simp add: blog_rows_def)
  have one: "checks (blog_rows ! 0) ''published'' = Some 1" by (simp add: blog_rows_def)
  have zero: "checks (blog_rows ! 1) ''published'' = Some 0" by (simp add: blog_rows_def)
  from t c have built: "fst (get_page_context_from_doctypes site empty_cache)
      = add_apps site [] (installed_apps site)" by blast
  from t f ne one have sel: "selected site ''Blog Post'' (blog_rows ! 0)" by blast
  from t h pn have "route_column site ''Blog Post'' (blog_rows ! 0) =
          Some (case parent_website_route (blog_rows ! 0) of
                  None \<Rightarrow> ''hello-world''
                | Some parent \<Rightarrow> if parent = [] then ''hello-world'' else parent @ ''/'' @ ''hello-world'')"
    by blast
  then have rc: "route_column site ''Blog Post'' (blog_rows ! 0) = Some ''blog/hello-world''"
    by (simp add: par)
  from t i g r sel have "route_column site ''Blog Post'' (blog_rows ! 0)
      \<in> fst ` set (add_apps site [] (installed_apps site))" by blast
  then have key: "Some ''blog/hello-world'' \<in> fst ` set (add_apps site [] (installed_apps site))"
    by (simp only: rc)
  from u f ne zero have out: "\<not> selected site ''Blog Post'' (blog_rows ! 1)" by blast
  show ?thesis
    using c built i g r sel h pn rc key f zero out by (intro conjI)
qed

subsection \<open>Sibling assets\<close>

text \<open>C4. The scan should skip \<open>page.js\<close> and \<open>page.css\<close> when \<open>page.html\<close> is in the same
  directory. It does not: the test is on the whole file name followed by \<open>.html\<close>, so
  in the \<open>www\<close> directory of the example site, which holds \<open>page.html\<close>, both files
  become pages of their own, named \<open>page.js\<close> and \<open>page.css\<close>.\<close>

theorem sibling_assets_are_not_skipped:
  "path_exists site_www ''page.html''
   \<and> map_sum id (map page_name) (get_pages_from_path site ''app'' [''www''])
       = Inr [''page'', ''page.js'', ''page.css'', ''index'', ''about'', ''blog'',
              ''blog/first_post-2015'', ''well-known'']
   \<and> map_sum id (map template) (get_pages_from_path site ''app'' [''www''])
       = Inr [''www/page.html'', ''www/page.js'', ''www/page.css'', ''www/index.html'',
              ''www/about.html'', ''www/blog/index.html'', ''www/blog/first_post-2015.md'',
              ''www/.well-known/index.html'']"
  by code_simp

text \<open>C6. With both siblings present the content of the style sheet should go into a
  style block. It does not: both reads assign \<open>js\<close>, so for \<open>www/page.html\<close> of the
  example site the HTML is the shell, the page content and a script block that holds
  the text of \<open>page.css\<close>; there is no style block, and the text of \<open>page.js\<close> is
  lost.\<close>

theorem sibling_css_lands_in_script_block:
  "read_file site_www ''page.js'' = Inr ''alert(1)''
   \<and> read_file site_www ''page.css'' = Inr ''p {}''
   \<and> map_sum id snd
         (get_source site site_www (new_dict\<lparr>basename := ''page'', template := ''www/page.html''\<rparr>))
       = Inr (shell_extends @ page_content_block ''<p>new</p>'' @ script_block ''p {}'')"
  by code_simp

subsection \<open>Route names\<close>

lemma strip_id:
  assumes "s \<noteq> []" and "hd s \<notin> set cs" and "last s \<notin> set cs"
  shows "strip cs s = s"
proof -
  from assms(1,2) have a: "dropWhile (\<lambda>c. c \<in> set cs) s = s"
    by (cases s) simp_all
  from assms(1,3) have "dropWhile (\<lambda>c. c \<in> set cs) (rev s) = rev s"
    by (cases "rev s") (simp_all add: last_rev [symmetric] hd_rev)
  with a show ?thesis by (simp add: strip_def)
qed

lemma strip_slash_trailing:
  assumes "s \<noteq> []" and "hd s \<noteq> CHR ''/''" and "last s \<noteq> CHR ''/''"
  shows "strip ''/'' (s @ ''/'') = s"
proof -
  from assms(1,2) have a: "dropWhile (\<lambda>c. c \<in> set ''/'') (s @ ''/'') = s @ ''/''"
    by (cases s) simp_all
  from assms(1,3) have "dropWhile (\<lambda>c. c \<in> set ''/'') (rev s) = rev s"
    by (cases "rev s") (simp_all add: hd_rev)
  then have "dropWhile (\<lambda>c. c \<in> set ''/'') (rev (s @ ''/'')) = rev s"
    by simp
  with a show ?thesis by (simp add: strip_def)
qed

lemma join_slash_ends:
  assumes "rel \<noteq> []" and "\<forall>n \<in> set rel. n \<noteq> [] \<and> CHR ''/'' \<notin> set n"
  shows "join_slash rel \<noteq> [] \<and> hd (join_slash rel) \<noteq> CHR ''/''
         \<and> last (join_slash rel) \<noteq> CHR ''/''"
  using assms
proof (induction rel rule: join_slash.induct)
  case 1
  then show ?case by simp
next
  case (2 x)
  then have "x \<noteq> []" and "CHR ''/'' \<notin> set x" by simp_all
  then show ?case by (metis hd_in_set last_in_set join_slash.simps(2))
next
  case (3 x y zs)
  then have ih: "join_slash (y # zs) \<noteq> [] \<and> last (join_slash (y # zs)) \<noteq> CHR ''/''"
    by simp
  from 3 have "x \<noteq> []" and "CHR ''/'' \<notin> set x" by simp_all
  then have x: "x \<noteq> [] \<and> hd x \<noteq> CHR ''/''" by (metis hd_in_set)
  from ih x show ?case by simp
qed

lemma os_path_join_longer:
  assumes "n \<noteq> []" and "CHR ''/'' \<notin> set n"
  shows "length a < length (os_path_join a n)"
  using assms by (cases n) (auto simp: os_path_join_def)

lemma foldl_join_longer:
  assumes "\<forall>n \<in> set rel. n \<noteq> [] \<and> CHR ''/'' \<notin> set n"
  shows "length a \<le> length (foldl os_path_join a rel)"
  using assms
proof (induction rel arbitrary: a)
  case Nil
  then show ?case by simp
next
  case (Cons n rel)
  then have "length a < length (os_path_join a n)"
    by (simp add: os_path_join_longer)
  moreover from Cons have "length (os_path_join a n) \<le> length (foldl os_path_join (os_path_join a n) rel)"
    by simp
  ultimately show ?case by simp
qed

lemma below_root_differs:
  assumes "rel \<noteq> []" and "\<forall>n \<in> set rel. n \<noteq> [] \<and> CHR ''/'' \<notin> set n"
  shows "foldl os_path_join a rel \<noteq> a"
proof -
  obtain n ns where rel: "rel = n # ns" using assms(1) by (cases rel) auto
  with assms(2) have "length a < length (os_path_join a n)"
    by (simp add: os_path_join_longer)
  moreover from rel assms(2)
  have "length (os_path_join a n) \<le> length (foldl os_path_join (os_path_join a n) ns)"
    by (simp add: foldl_join_longer)
  ultimately have "length a < length (foldl os_path_join a rel)"
    by (simp add: rel)
  then show ?thesis by auto
qed

lemma get_source_descriptor:
  assumes "get_source e d pinfo = Inr (p', html)"
  shows "p' = pinfo \<or> p' = pinfo\<lparr>only_content := True\<rparr>"
  using assms
  by (auto simp: get_source_def Let_def split: option.splits if_splits sum.splits)

lemma load_flags_page_name: "page_name (load_flags t q) = page_name q"
  by (simp add: load_flags_def Let_def)

lemma load_properties_result:
  "load_properties pinfo = Inr p' \<Longrightarrow>
   \<exists>t. load_title pinfo = Inr t \<and> p' = load_flags t (add_title_block t (pinfo\<lparr>title := Some t\<rparr>))"
  by (auto simp: load_properties_def split: sum.splits)

lemma load_properties_page_name:
  assumes "load_properties pinfo = Inr p'"
  shows "page_name p' = page_name pinfo"
proof -
  obtain t where "p' = load_flags t (add_title_block t (pinfo\<lparr>title := Some t\<rparr>))"
    using load_properties_result [OF assms] by blast
  then show ?thesis by (simp add: load_flags_page_name add_title_block_def)
qed

lemma get_page_info_page_name:
  assumes "get_page_info e app base rel d fname = Inr p"
    and "rsplit_dot fname = Some (pname, extn)"
  shows "page_name p =
     strip ''/'' (strip ''.'' (strip ''/'' (os_path_join (relpath rel)
       (if (if extn \<in> {''html'', ''md''} then pname else fname) = ''index''
           \<and> foldl os_path_join (scan_root e app base) rel \<noteq> scan_root e app base
        then [] else (if extn \<in> {''html'', ''md''} then pname else fname)))))"
  using assms
  by (auto simp: get_page_info_def Let_def split: sum.splits prod.splits if_splits
           dest!: get_source_descriptor load_properties_page_name)

lemma rsplit_dot_index:
  "rsplit_dot ''index.html'' = Some (''index'', ''html'')"
  "rsplit_dot ''index.md'' = Some (''index'', ''md'')"
  by (simp_all add: rsplit_dot_def)

lemma root_index_name:
  "strip ''/'' (strip ''.'' (strip ''/'' (os_path_join (relpath []) ''index''))) = ''index''"
  by (simp add: relpath_def os_path_join_def strip_def)

text \<open>C9, as the code has it. For a file \<open>index.html\<close> or \<open>index.md\<close> in a directory
  below the scan root, reached through directory names that are not empty and hold no
  slash, the route name is the directory's relative path with the dots and slashes at
  its two ends stripped; it is the relative path itself when that neither begins nor
  ends with a dot. At the scan root the route name is \<open>index\<close>.\<close>

theorem index_route_name:
  assumes "get_page_info e app base rel d fname = Inr p"
    and "fname = ''index.html'' \<or> fname = ''index.md''"
    and "\<forall>n \<in> set rel. n \<noteq> [] \<and> CHR ''/'' \<notin> set n"
  shows "(rel = [] \<longrightarrow> page_name p = ''index'')
         \<and> (rel \<noteq> [] \<longrightarrow> page_name p = strip ''/'' (strip ''.'' (join_slash rel)))
         \<and> (rel \<noteq> [] \<and> hd (join_slash rel) \<noteq> CHR ''.'' \<and> last (join_slash rel) \<noteq> CHR ''.''
              \<longrightarrow> page_name p = join_slash rel)"
proof -
  obtain extn where split: "rsplit_dot fname = Some (''index'', extn)"
    and extn: "extn \<in> {''html'', ''md''}"
    using assms(2) rsplit_dot_index by auto
  define root where "root = scan_root e app base"
  have name: "page_name p =
     strip ''/'' (strip ''.'' (strip ''/'' (os_path_join (relpath rel)
       (if foldl os_path_join root rel \<noteq> root then [] else ''index''))))"
    using get_page_info_page_name [OF assms(1) split] extn by (simp add: root_def)
  have at_root: "rel = [] \<Longrightarrow> page_name p = ''index''"
    using name root_index_name by simp
  have below: "page_name p = strip ''/'' (strip ''.'' (join_slash rel))" if "rel \<noteq> []"
  proof -
    from that assms(3) have "foldl os_path_join root rel \<noteq> root"
      by (rule below_root_differs)
    moreover from that assms(3)
    have ends: "join_slash rel \<noteq> [] \<and> hd (join_slash rel) \<noteq> CHR ''/''
                \<and> last (join_slash rel) \<noteq> CHR ''/''"
      by (rule join_slash_ends)
    then have "os_path_join (join_slash rel) [] = join_slash rel @ ''/''"
      by (simp add: os_path_join_def)
    moreover from ends have "strip ''/'' (join_slash rel @ ''/'') = join_slash rel"
      by (simp add: strip_slash_trailing)
    ultimately show ?thesis using name that by (simp add: relpath_def)
  qed
  have plain: "page_name p = join_slash rel"
    if "rel \<noteq> []" and "hd (join_slash rel) \<noteq> CHR ''.''" and "last (join_slash rel) \<noteq> CHR ''.''"
  proof -
    from that(1) assms(3)
    have ends: "join_slash rel \<noteq> [] \<and> hd (join_slash rel) \<noteq> CHR ''/''
                \<and> last (join_slash rel) \<noteq> CHR ''/''"
      by (rule join_slash_ends)
    with that have "strip ''.'' (join_slash rel) = join_slash rel"
      by (simp add: strip_id)
    moreover from ends have "strip ''/'' (join_slash rel) = join_slash rel"
      by (simp add: strip_id)
    ultimately show ?thesis using below [OF that(1)] by simp
  qed
  from at_root below plain show ?thesis by blast
qed

theorem index_route_name_witness:
  "get_page_info site ''app'' [''www''] [''blog''] site_blog ''index.html''
     = Inr (projr (get_page_info site ''app'' [''www''] [''blog''] site_blog ''index.html''))
   \<and> page_name (projr (get_page_info site ''app'' [''www''] [''blog''] site_blog ''index.html''))
     = ''blog''
   \<and> get_page_info site ''app'' [''www''] [] site_www ''index.html''
     = Inr (projr (get_page_info site ''app'' [''www''] [] site_www ''index.html''))
   \<and> page_name (projr (get_page_info site ''app'' [''www''] [] site_www ''index.html''))
     = ''index''"
proof -
  have "\<not> isl (get_page_info site ''app'' [''www''] [''blog''] site_blog ''index.html'')"
    by code_simp
  then have b: "get_page_info site ''app'' [''www''] [''blog''] site_blog ''index.html''
     = Inr (projr (get_page_info site ''app'' [''www''] [''blog''] site_blog ''index.html''))"
    by simp
  have "\<not> isl (get_page_info site ''app'' [''www''] [] site_www ''index.html'')"
    by code_simp
  then have r: "get_page_info site ''app'' [''www''] [] site_www ''index.html''
     = Inr (projr (get_page_info site ''app'' [''www''] [] site_www ''index.html''))"
    by simp
  have f: "''index.html'' = ''index.html'' \<or> ''index.html'' = ''index.md''" by simp
  have vb: "\<forall>n \<in> set [''blog'']. n \<noteq> [] \<and> CHR ''/'' \<notin> set n" by simp
  have vr: "\<forall>n \<in> set ([] :: string list). n \<noteq> [] \<and> CHR ''/'' \<notin> set n" by simp
  have plain: "[''blog''] \<noteq> [] \<and> hd (join_slash [''blog'']) \<noteq> CHR ''.''
      \<and> last (join_slash [''blog'']) \<noteq> CHR ''.''" by simp
  have "page_name (projr (get_page_info site ''app'' [''www''] [''blog''] site_blog ''index.html''))
     = join_slash [''blog'']"
    by (rule index_route_name [OF b f vb, THEN conjunct2, THEN conjunct2, THEN mp, OF plain])
  then have nb: "page_name (projr (get_page_info site ''app'' [''www''] [''blog''] site_blog ''index.html''))
     = ''blog''" by simp
  have nr: "page_name (projr (get_page_info site ''app'' [''www''] [] site_www ''index.html''))
     = ''index''"
    by (rule index_route_name [OF r f vr, THEN conjunct1, THEN mp, OF refl])
  from b nb r nr show ?thesis by (intro conjI)
qed

text \<open>The index page of the directory \<open>.well-known\<close> gets the route name
  \<open>well-known\<close>, which is not the directory's relative path.\<close>

theorem index_route_name_counterexample:
  "map_sum id page_name
     (get_page_info site ''app'' [''www''] [''.well-known''] site_hidden ''index.html'')
     = Inr ''well-known''
   \<and> relpath [''.well-known''] = ''.well-known''
   \<and> map_sum id page_name
     (get_page_info site ''app'' [''www''] [''.well-known''] site_hidden ''index.html'')
     \<noteq> Inr (relpath [''.well-known''])"
  by code_simp

subsection \<open>Content-only pages\<close>

lemma get_source_wraps:
  assumes "template_source e (template pinfo) = Some loaded"
    and "suffix ''.html'' (template pinfo) \<or> suffix ''.md'' (template pinfo)"
    and "body = (if suffix ''.md'' (template pinfo) then markdown e loaded else loaded)"
    and "\<not> sublist ''</body>'' body" and "\<not> sublist ''{% block'' body"
    and "\<not> path_exists d (basename pinfo @ ''.js'')"
    and "\<not> path_exists d (basename pinfo @ ''.css'')"
  shows "get_source e d pinfo
           = Inr (pinfo\<lparr>only_content := True\<rparr>, shell_extends @ page_content_block body)"
  using assms by (simp add: get_source_def Let_def)

lemma load_title_cases:
  "load_title pinfo =
     (if sublist title_marker (source pinfo)
      then (case first_title_match (source pinfo) of
              None \<Rightarrow> Inl IndexError
            | Some g \<Rightarrow> Inr (strip whitespace g))
      else Inr (py_title (replace_char (CHR ''-'') (CHR '' '')
                  (replace_char (CHR ''_'') (CHR '' '') (os_path_basename (name pinfo))))))"
  by (simp add: load_title_def)

lemma blog_index_example:
  "map_sum id (\<lambda>p. (page_name p, title p, only_content p, no_cache p, source p))
     (get_page_info site ''app'' [''www''] [''blog''] site_blog ''index.html'')
   = Inr (''blog'', Some ''My Blog'', True, False,
          shell_extends @ page_content_block ''<!-- title: My Blog --><p>posts</p>''
          @ title_block ''My Blog'' @ header_block ''My Blog'')"
  by code_simp

text \<open>C7. A content-only page whose title comment holds a \<open>>\<close> should get that title,
  or at least the title derived from its route name. It gets neither: the marker
  \<open><!-- title:\<close> is in the source, the pattern finds no comment, and the first element
  of the empty list of matches is read. For \<open>www/home.html\<close> of the second site
  \<open>get_page_info\<close> raises IndexError, and with it the whole scan.\<close>

theorem title_comment_with_gt_raises:
  "get_source broken_site broken_www (new_dict\<lparr>basename := ''home'', template := ''www/home.html''\<rparr>)
     = Inr (new_dict\<lparr>basename := ''home'', template := ''www/home.html'', only_content := True\<rparr>,
            shell_extends @ page_content_block ''<!-- title: A > B --><p>x</p>'')
   \<and> sublist title_marker (shell_extends @ page_content_block ''<!-- title: A > B --><p>x</p>'')
   \<and> first_title_match (shell_extends @ page_content_block ''<!-- title: A > B --><p>x</p>'') = None
   \<and> get_page_info broken_site ''app'' [''www''] [] broken_www ''home.html'' = Inl IndexError
   \<and> fst (get_pages broken_site empty_cache) = Inl IndexError"
  by code_simp

end
